theory Spec2Isabelle
  imports Complex_Main "HOL-Library.Log_Nat"
begin

section \<open>Data model\<close>

text \<open>
  The \<^verbatim>\<open>Account\<close> and \<^verbatim>\<open>TransferRequest\<close> structs. Go's \<^verbatim>\<open>int\<close> and \<^verbatim>\<open>int64\<close> fields
  are never used in Go arithmetic (balances are only compared in Go and added inside the
  SQL statement), so they are integers here; \<^verbatim>\<open>time.Time\<close> is a number of ticks.
\<close>

record Account =
  ID :: int
  FirstName :: string
  LastName :: string
  Number :: int
  EncryptedPassword :: string
  Balance :: int
  CreatedAt :: int

subsection \<open>float64\<close>

text \<open>
  A finite \<^verbatim>\<open>float64\<close> is \<open>Fin m e\<close>, standing for \<open>m * 2 ^ e\<close>; \<open>Inf neg\<close> is an infinity.
  A request amount comes out of \<^verbatim>\<open>encoding/json\<close>, which yields finite values only, so no
  NaN arises: the code negates the amount and multiplies it by 100, nothing else.
\<close>

datatype float64 = Fin int int | Inf bool

definition f64_valid :: "float64 \<Rightarrow> bool" where
  "f64_valid x =
     (case x of Fin m e \<Rightarrow> \<bar>m\<bar> < 2 ^ 53 \<and> - 1074 \<le> e \<and> e \<le> 971 | Inf neg \<Rightarrow> True)"

definition fin_val :: "int \<Rightarrow> int \<Rightarrow> real" where
  "fin_val m e = (if 0 \<le> e then of_int m * 2 ^ nat e else of_int m / 2 ^ nat (- e))"

text \<open>\<^verbatim>\<open>x <= 0\<close>\<close>

definition f64_le_zero :: "float64 \<Rightarrow> bool" where
  "f64_le_zero x = (case x of Fin m e \<Rightarrow> m \<le> 0 | Inf neg \<Rightarrow> neg)"

text \<open>\<^verbatim>\<open>-x\<close>\<close>

definition f64_neg :: "float64 \<Rightarrow> float64" where
  "f64_neg x = (case x of Fin m e \<Rightarrow> Fin (- m) e | Inf neg \<Rightarrow> Inf (\<not> neg))"

text \<open>
  The nearest integer to \<open>p / 2 ^ k\<close> for \<open>p \<ge> 0\<close>, a tie going to the even neighbour:
  the rounding of IEEE 754 arithmetic, which Go's \<^verbatim>\<open>*\<close> on \<^verbatim>\<open>float64\<close> performs.
\<close>

definition rne_shift :: "int \<Rightarrow> nat \<Rightarrow> int" where
  "rne_shift p k =
     (let q = p div 2 ^ k; r = p mod 2 ^ k
      in if 2 ^ k < 2 * r \<or> (2 * r = 2 ^ k \<and> odd q) then q + 1 else q)"

text \<open>
  \<^verbatim>\<open>x * 100\<close>: the exact product \<open>(m * 100) * 2 ^ e\<close> is cut to 53 significant bits by
  \<open>rne_shift\<close>; a result of magnitude \<open>2 ^ 1024\<close> or more is an infinity. The exponent
  only grows, so the product of a \<open>f64_valid\<close> value never falls below the subnormal grid.
\<close>

definition f64_mul100 :: "float64 \<Rightarrow> float64" where
  "f64_mul100 x =
     (case x of
        Inf neg \<Rightarrow> Inf neg
      | Fin m e \<Rightarrow>
          (let p = m * 100;
               k = bitlen \<bar>p\<bar> - 53;
               q = (if k \<le> 0 then \<bar>p\<bar> else rne_shift \<bar>p\<bar> (nat k));
               e' = (if k \<le> 0 then e else e + k)
           in if 1024 < bitlen q + e' then Inf (p < 0) else Fin (sgn p * q) e'))"

text \<open>
  \<^verbatim>\<open>int64(x)\<close>: the fraction is discarded (truncation towards zero). When the truncated
  value does not fit 64 bits, or \<open>x\<close> is an infinity, the language leaves the result to the
  implementation: \<open>oor\<close> is that implementation-dependent result, a parameter of the model.
\<close>

definition trunc_fin :: "int \<Rightarrow> int \<Rightarrow> int" where
  "trunc_fin m e = (if 0 \<le> e then m * 2 ^ nat e else sgn m * (\<bar>m\<bar> div 2 ^ nat (- e)))"

definition int64_fits :: "float64 \<Rightarrow> bool" where
  "int64_fits x =
     (case x of Fin m e \<Rightarrow> - (2 ^ 63) \<le> trunc_fin m e \<and> trunc_fin m e < 2 ^ 63
      | Inf neg \<Rightarrow> False)"

definition int64_of_float64 :: "(float64 \<Rightarrow> int) \<Rightarrow> float64 \<Rightarrow> int" where
  "int64_of_float64 oor x =
     (case x of
        Fin m e \<Rightarrow> if int64_fits x then trunc_fin m e else oor x
      | Inf neg \<Rightarrow> oor x)"

text \<open>The result the gc compiler gives on amd64 where the value does not fit.\<close>

definition oor_amd64 :: "float64 \<Rightarrow> int" where
  "oor_amd64 x = - (2 ^ 63)"

subsection \<open>Requests, receipts, errors\<close>

record TransferRequest =
  FromAccountNumber :: int
  ToAccountNumber :: int
  Amount :: float64

text \<open>The map \<^verbatim>\<open>performTransfer\<close> returns, one field for each of its five keys.\<close>

record Receipt =
  status :: string
  from_account :: int
  to_account :: int
  amount :: float64
  transferred_at :: int

datatype side = Source | Destination

text \<open>
  One constructor for each \<^verbatim>\<open>fmt.Errorf\<close> of the transfer code:
  \<open>InvalidAmount\<close> "transfer amount must be positive";
  \<open>AccountNotFound\<close> "invalid source account", "invalid destination account" (validation);
  \<open>SelfTransfer\<close> "cannot transfer to the same account";
  \<open>InsufficientFunds\<close> "insufficient balance";
  \<open>AccountMissing\<close> "source account not found", "destination account not found" (execution);
  \<open>BeginFailed\<close> "could not begin transaction";
  \<open>DebitFailed\<close> "failed to deduct from source account";
  \<open>CreditFailed\<close> "failed to credit destination account";
  \<open>CommitFailed\<close> "failed to commit transfer".
\<close>

datatype error =
    InvalidAmount
  | AccountNotFound side
  | SelfTransfer
  | InsufficientFunds
  | AccountMissing side
  | BeginFailed
  | DebitFailed
  | CreditFailed
  | CommitFailed

datatype store_error = NotFound | DriverError | TxDone

section \<open>The store (storage.go)\<close>

text \<open>
  \<^verbatim>\<open>PostgresStorage\<close> talks to a database through \<^verbatim>\<open>database/sql\<close>. The state of that
  world is the committed \<open>account\<close> table (\<open>rows\<close>, in scan order), the clock, and two
  instruments: \<open>faults\<close>, the outcomes the driver will report for the coming calls
  (\<open>True\<close>: the call fails; an exhausted list: no more failures), and \<open>trace\<close>, the calls
  made so far on the \<^verbatim>\<open>Storage\<close> and \<^verbatim>\<open>Transaction\<close> interfaces, each with whether it
  succeeded.
\<close>

datatype store_call =
    QueryByNumber int
  | Begin
  | TxExec int int
  | DbExec int int
  | Commit
  | Rollback

datatype event = Call store_call bool

record db =
  rows :: "Account list"
  faults :: "bool list"
  trace :: "event list"
  now :: int

text \<open>An open \<^verbatim>\<open>sql.Tx\<close>: the table as the transaction sees it, and whether it has ended.\<close>

record Transaction =
  pending :: "Account list"
  closed :: bool

definition logged :: "store_call \<Rightarrow> bool \<Rightarrow> db \<Rightarrow> db" where
  "logged c ok s = s\<lparr>trace := trace s @ [Call c ok]\<rparr>"

definition driver :: "store_call \<Rightarrow> db \<Rightarrow> bool \<times> db" where
  "driver c s =
     (case faults s of
        [] \<Rightarrow> (True, logged c True s)
      | f # fs \<Rightarrow> (\<not> f, logged c (\<not> f) (s\<lparr>faults := fs\<rparr>)))"

text \<open>
  \<^verbatim>\<open>SELECT ... FROM account WHERE account_number = $1\<close> through \<^verbatim>\<open>QueryRow\<close> and
  \<^verbatim>\<open>Scan\<close>: the first matching row, \<^verbatim>\<open>sql.ErrNoRows\<close> when there is none.
\<close>

definition GetAccountByNumber :: "db \<Rightarrow> int \<Rightarrow> (store_error + Account) \<times> db" where
  "GetAccountByNumber s number =
     (case driver (QueryByNumber number) s of
        (False, s') \<Rightarrow> (Inl DriverError, s')
      | (True, s') \<Rightarrow>
          (case find (\<lambda>a. Number a = number) (rows s') of
             None \<Rightarrow> (Inl NotFound, s')
           | Some a \<Rightarrow> (Inr a, s')))"

definition BeginTransaction :: "db \<Rightarrow> (store_error + Transaction) \<times> db" where
  "BeginTransaction s =
     (case driver Begin s of
        (False, s') \<Rightarrow> (Inl DriverError, s')
      | (True, s') \<Rightarrow> (Inr \<lparr>pending = rows s', closed = False\<rparr>, s'))"

text \<open>\<^verbatim>\<open>UPDATE account SET balance = balance + $1 WHERE id = $2\<close>\<close>

definition sql_update_balance :: "int \<Rightarrow> int \<Rightarrow> Account list \<Rightarrow> Account list" where
  "sql_update_balance delta i rs =
     map (\<lambda>a. if ID a = i then a\<lparr>Balance := Balance a + delta\<rparr> else a) rs"

definition UpdateAccountBalance ::
  "(float64 \<Rightarrow> int) \<Rightarrow> int \<Rightarrow> float64 \<Rightarrow> Transaction option \<Rightarrow> db
     \<Rightarrow> store_error option \<times> Transaction option \<times> db" where
  "UpdateAccountBalance oor accountID amt tx s =
     (let amountInCents = int64_of_float64 oor (f64_mul100 amt)
      in case tx of
           Some t \<Rightarrow>
             if closed t then (Some TxDone, Some t, logged (TxExec amountInCents accountID) False s)
             else (case driver (TxExec amountInCents accountID) s of
                     (False, s') \<Rightarrow> (Some DriverError, Some t, s')
                   | (True, s') \<Rightarrow>
                       (None,
                        Some (t\<lparr>pending := sql_update_balance amountInCents accountID (pending t)\<rparr>),
                        s'))
         | None \<Rightarrow>
             (case driver (DbExec amountInCents accountID) s of
                (False, s') \<Rightarrow> (Some DriverError, None, s')
              | (True, s') \<Rightarrow>
                  (None, None,
                   s'\<lparr>rows := sql_update_balance amountInCents accountID (rows s')\<rparr>)))"

text \<open>
  \<^verbatim>\<open>tx.Commit()\<close> and \<^verbatim>\<open>tx.Rollback()\<close>: either ends the transaction, and on an ended
  transaction either returns \<^verbatim>\<open>sql.ErrTxDone\<close> without reaching the driver (no outcome is
  drawn from \<open>faults\<close>). Only a commit that succeeds replaces the committed table.
\<close>

definition CommitTx :: "Transaction \<Rightarrow> db \<Rightarrow> store_error option \<times> Transaction \<times> db" where
  "CommitTx t s =
     (if closed t then (Some TxDone, t, logged Commit False s)
      else case driver Commit s of
             (False, s') \<Rightarrow> (Some DriverError, t\<lparr>closed := True\<rparr>, s')
           | (True, s') \<Rightarrow> (None, t\<lparr>closed := True\<rparr>, s'\<lparr>rows := pending t\<rparr>))"

definition RollbackTx :: "Transaction \<Rightarrow> db \<Rightarrow> store_error option \<times> Transaction \<times> db" where
  "RollbackTx t s =
     (if closed t then (Some TxDone, t, logged Rollback False s)
      else case driver Rollback s of
             (False, s') \<Rightarrow> (Some DriverError, t\<lparr>closed := True\<rparr>, s')
           | (True, s') \<Rightarrow> (None, t\<lparr>closed := True\<rparr>, s'))"

section \<open>The transfer engine\<close>

definition validateTransfer ::
  "(float64 \<Rightarrow> int) \<Rightarrow> db \<Rightarrow> TransferRequest \<Rightarrow> error option \<times> db" where
  "validateTransfer oor s req =
     (if f64_le_zero (Amount req) then (Some InvalidAmount, s)
      else case GetAccountByNumber s (FromAccountNumber req) of
        (Inl err, s1) \<Rightarrow> (Some (AccountNotFound Source), s1)
      | (Inr fromAccount, s1) \<Rightarrow>
          (case GetAccountByNumber s1 (ToAccountNumber req) of
             (Inl err, s2) \<Rightarrow> (Some (AccountNotFound Destination), s2)
           | (Inr toAccount, s2) \<Rightarrow>
               if Number fromAccount = Number toAccount then (Some SelfTransfer, s2)
               else if Balance fromAccount < int64_of_float64 oor (Amount req)
                 then (Some InsufficientFunds, s2)
               else (None, s2)))"

text \<open>
  \<^verbatim>\<open>performTransfer\<close> from \<^verbatim>\<open>BeginTransaction\<close> on, up to its \<^verbatim>\<open>return\<close>: the result
  and the transaction handle as the deferred \<^verbatim>\<open>tx.Rollback()\<close> will find it.
\<close>

definition transferInTx ::
  "(float64 \<Rightarrow> int) \<Rightarrow> Account \<Rightarrow> Account \<Rightarrow> TransferRequest \<Rightarrow> Transaction \<Rightarrow> db
     \<Rightarrow> (error + Receipt) \<times> Transaction \<times> db" where
  "transferInTx oor fromAccount toAccount req tx s =
     (case UpdateAccountBalance oor (ID fromAccount) (f64_neg (Amount req)) (Some tx) s of
        (None, Some tx1, s1) \<Rightarrow>
          (case UpdateAccountBalance oor (ID toAccount) (Amount req) (Some tx1) s1 of
             (None, Some tx2, s2) \<Rightarrow>
               (case CommitTx tx2 s2 of
                  (None, tx3, s3) \<Rightarrow>
                    (Inr \<lparr>status = ''success'',
                          from_account = FromAccountNumber req,
                          to_account = ToAccountNumber req,
                          amount = Amount req,
                          transferred_at = now s3\<rparr>, tx3, s3)
                | (Some err, tx3, s3) \<Rightarrow> (Inl CommitFailed, tx3, s3))
           | (err, tx2, s2) \<Rightarrow> (Inl CreditFailed, tx1, s2))
      | (err, tx1, s1) \<Rightarrow> (Inl DebitFailed, tx, s1))"

definition performTransfer ::
  "(float64 \<Rightarrow> int) \<Rightarrow> db \<Rightarrow> TransferRequest \<Rightarrow> (error + Receipt) \<times> db" where
  "performTransfer oor s req =
     (case GetAccountByNumber s (FromAccountNumber req) of
        (Inl err, s1) \<Rightarrow> (Inl (AccountMissing Source), s1)
      | (Inr fromAccount, s1) \<Rightarrow>
          (case GetAccountByNumber s1 (ToAccountNumber req) of
             (Inl err, s2) \<Rightarrow> (Inl (AccountMissing Destination), s2)
           | (Inr toAccount, s2) \<Rightarrow>
               (case BeginTransaction s2 of
                  (Inl err, s3) \<Rightarrow> (Inl BeginFailed, s3)
                | (Inr tx, s3) \<Rightarrow>
                    (case transferInTx oor fromAccount toAccount req tx s3 of
                       (res, tx', s4) \<Rightarrow>
                         (case RollbackTx tx' s4 of (r, tx'', s5) \<Rightarrow> (res, s5))))))"

text \<open>
  \<^verbatim>\<open>handleTransfer\<close> once the method is checked and the body decoded: validation, then
  execution. The result is the receipt written with status 200, or the error.
\<close>

definition handleTransfer ::
  "(float64 \<Rightarrow> int) \<Rightarrow> db \<Rightarrow> TransferRequest \<Rightarrow> (error + Receipt) \<times> db" where
  "handleTransfer oor s req =
     (case validateTransfer oor s req of
        (Some err, s1) \<Rightarrow> (Inl err, s1)
      | (None, s1) \<Rightarrow> performTransfer oor s1 req)"

text \<open>The calls made to the store between two states.\<close>

definition calls_since :: "db \<Rightarrow> db \<Rightarrow> event list" where
  "calls_since s s' = drop (length (trace s)) (trace s')"

fun is_lookup :: "event \<Rightarrow> bool" where
  "is_lookup (Call (QueryByNumber n) ok) = True"
| "is_lookup (Call c ok) = False"

text \<open>No account holds a negative balance.\<close>

definition nonneg_balances :: "db \<Rightarrow> bool" where
  "nonneg_balances s = list_all (\<lambda>a. 0 \<le> Balance a) (rows s)"

text \<open>The driver reports no failure for the next \<open>n\<close> calls.\<close>

definition no_fault :: "nat \<Rightarrow> db \<Rightarrow> bool" where
  "no_fault n s = (True \<notin> set (take n (faults s)))"

section \<open>The conversion in the words of the spec\<close>

text \<open>
  The spec has a major-unit amount converted by "multiply by 100, truncate toward zero". In
  \<^verbatim>\<open>float64\<close> arithmetic the product of two values is the real product rounded to 53
  significant bits, to the nearest such value and to the one with an even last bit on a tie
  (IEEE 754). These definitions say so over the reals, with no reference to the code; the
  theorems compare the code with them.
\<close>

definition spec_trunc_toward_zero :: "real \<Rightarrow> int" where
  "spec_trunc_toward_zero x = (if 0 \<le> x then \<lfloor>x\<rfloor> else \<lceil>x\<rceil>)"

text \<open>The nearest integer to \<open>y \<ge> 0\<close>, the even one on a tie.\<close>

definition round_half_even :: "real \<Rightarrow> int" where
  "round_half_even y =
     (let f = \<lfloor>y\<rfloor>
      in if y - of_int f < 1 / 2 then f
         else if 1 / 2 < y - of_int f then f + 1
         else if even f then f else f + 1)"

text \<open>
  \<open>x\<close> rounded to 53 significant bits: the unit of the last place of \<open>x\<close> is
  \<open>2 ^ (\<lfloor>log\<^sub>2 \<bar>x\<bar>\<rfloor> - 52)\<close>.
\<close>

definition ieee_round_float64 :: "real \<Rightarrow> real" where
  "ieee_round_float64 x =
     (if x = 0 then 0
      else let ulp = 2 powi (\<lfloor>log 2 \<bar>x\<bar>\<rfloor> - 52)
           in sgn x * of_int (round_half_even (\<bar>x\<bar> / ulp)) * ulp)"

definition spec_minor_units :: "real \<Rightarrow> int" where
  "spec_minor_units a = spec_trunc_toward_zero (ieee_round_float64 (100 * a))"

section \<open>Example states and requests\<close>

definition acct_1001 :: Account where
  "acct_1001 = \<lparr>ID = 1, FirstName = ''Ada'', LastName = ''Byron'', Number = 1001,
     EncryptedPassword = [], Balance = 100000, CreatedAt = 0\<rparr>"

definition acct_1002 :: Account where
  "acct_1002 = \<lparr>ID = 2, FirstName = ''Bob'', LastName = ''Hale'', Number = 1002,
     EncryptedPassword = [], Balance = 5000, CreatedAt = 0\<rparr>"

definition acct_1003 :: Account where
  "acct_1003 = \<lparr>ID = 3, FirstName = ''Cy'', LastName = ''Dunn'', Number = 1003,
     EncryptedPassword = [], Balance = 100, CreatedAt = 0\<rparr>"

definition bank :: db where
  "bank = \<lparr>rows = [acct_1001, acct_1002, acct_1003], faults = [], trace = [], now = 42\<rparr>"

text \<open>250.00 from 1001 to 1002.\<close>

definition req_250 :: TransferRequest where
  "req_250 = \<lparr>FromAccountNumber = 1001, ToAccountNumber = 1002, Amount = Fin 250 0\<rparr>"

text \<open>50.00 from 1003, which holds 100 minor units, to 1002.\<close>

definition req_overdraw :: TransferRequest where
  "req_overdraw = \<lparr>FromAccountNumber = 1003, ToAccountNumber = 1002, Amount = Fin 50 0\<rparr>"

text \<open>Amount 0 from 1001 to 1002.\<close>

definition req_zero :: TransferRequest where
  "req_zero = \<lparr>FromAccountNumber = 1001, ToAccountNumber = 1002, Amount = Fin 0 0\<rparr>"

text \<open>The bank where the fifth call to the store, the credit of a transfer, fails.\<close>

definition bank_credit_fails :: db where
  "bank_credit_fails = bank\<lparr>faults := [False, False, False, False, True]\<rparr>"

text \<open>250.00 from 1003, which holds 100 minor units, to 1002.\<close>

definition req_too_much :: TransferRequest where
  "req_too_much = \<lparr>FromAccountNumber = 1003, ToAccountNumber = 1002, Amount = Fin 250 0\<rparr>"

text \<open>Requests from 1001 to itself, and from an unknown number to itself.\<close>

definition req_self :: TransferRequest where
  "req_self = \<lparr>FromAccountNumber = 1001, ToAccountNumber = 1001, Amount = Fin 250 0\<rparr>"

definition req_self_zero :: TransferRequest where
  "req_self_zero = \<lparr>FromAccountNumber = 1001, ToAccountNumber = 1001, Amount = Fin 0 0\<rparr>"

definition req_self_unknown :: TransferRequest where
  "req_self_unknown = \<lparr>FromAccountNumber = 9999, ToAccountNumber = 9999, Amount = Fin 250 0\<rparr>"

text \<open>0.005, as the nearest \<^verbatim>\<open>float64\<close>, from 1001 to 1002.\<close>

definition req_half_cent :: TransferRequest where
  "req_half_cent = \<lparr>FromAccountNumber = 1001, ToAccountNumber = 1002,
     Amount = Fin 5764607523034235 (- 60)\<rparr>"



section \<open>What each store call does to the world\<close>

text \<open>
  Each call leaves the clock alone, appends one event to the trace and can only consume
  outcomes from \<open>faults\<close>; only a commit that succeeds, or an update outside a
  transaction, changes the committed table.
\<close>

lemma logged_simps:
  "rows (logged c ok s) = rows s" "now (logged c ok s) = now s"
  "faults (logged c ok s) = faults s" "trace (logged c ok s) = trace s @ [Call c ok]"
  by (simp_all add: logged_def)

lemma driver_frame:
  "driver c s = (ok, s') \<Longrightarrow>
     rows s' = rows s \<and> now s' = now s \<and> trace s' = trace s @ [Call c ok] \<and>
     set (faults s') \<subseteq> set (faults s)"
  by (auto simp: driver_def logged_simps split: list.splits)

lemma GetAccountByNumber_frame:
  "GetAccountByNumber s n = (r, s') \<Longrightarrow>
     rows s' = rows s \<and> now s' = now s \<and>
     trace s' = trace s @ [Call (QueryByNumber n) (r \<noteq> Inl DriverError)] \<and>
     set (faults s') \<subseteq> set (faults s) \<and>
     (\<forall>a. r = Inr a \<longrightarrow> find (\<lambda>a. Number a = n) (rows s) = Some a)"
  by (auto simp: GetAccountByNumber_def split: prod.splits bool.splits option.splits
      dest!: driver_frame)

lemma find_Number: "find (\<lambda>a. Number a = num) rs = Some a \<Longrightarrow> Number a = num \<and> a \<in> set rs"
  by (auto simp: find_Some_iff)

lemma BeginTransaction_frame:
  "BeginTransaction s = (r, s') \<Longrightarrow>
     rows s' = rows s \<and> now s' = now s \<and>
     trace s' = trace s @ [Call Begin (\<exists>t. r = Inr t)] \<and>
     set (faults s') \<subseteq> set (faults s) \<and>
     (\<forall>t. r = Inr t \<longrightarrow> t = \<lparr>pending = rows s, closed = False\<rparr>)"
  by (auto simp: BeginTransaction_def split: prod.splits bool.splits dest!: driver_frame)

lemma UpdateAccountBalance_tx_frame:
  "UpdateAccountBalance oor i amt (Some t) s = (err, txo, s') \<Longrightarrow>
     rows s' = rows s \<and> now s' = now s \<and>
     trace s' = trace s @ [Call (TxExec (int64_of_float64 oor (f64_mul100 amt)) i) (err = None)] \<and>
     set (faults s') \<subseteq> set (faults s) \<and>
     (err = None \<longrightarrow> \<not> closed t \<and>
        txo = Some (t\<lparr>pending := sql_update_balance (int64_of_float64 oor (f64_mul100 amt)) i (pending t)\<rparr>)) \<and>
     (err \<noteq> None \<longrightarrow> txo = Some t)"
  by (auto simp: UpdateAccountBalance_def Let_def logged_simps
      split: prod.splits bool.splits if_splits dest!: driver_frame)


lemma CommitTx_frame:
  "CommitTx t s = (err, t', s') \<Longrightarrow>
     now s' = now s \<and> trace s' = trace s @ [Call Commit (err = None)] \<and>
     set (faults s') \<subseteq> set (faults s) \<and> closed t' \<and>
     (err = None \<longrightarrow> \<not> closed t \<and> rows s' = pending t) \<and>
     (err \<noteq> None \<longrightarrow> rows s' = rows s)"
  by (auto simp: CommitTx_def logged_simps split: prod.splits bool.splits if_splits
      dest!: driver_frame)

lemma RollbackTx_frame:
  "RollbackTx t s = (err, t', s') \<Longrightarrow>
     rows s' = rows s \<and> now s' = now s \<and> trace s' = trace s @ [Call Rollback (err = None)] \<and>
     set (faults s') \<subseteq> set (faults s) \<and> closed t' \<and> (closed t \<longrightarrow> err \<noteq> None)"
  by (auto simp: RollbackTx_def logged_simps split: prod.splits bool.splits if_splits
      dest!: driver_frame)

lemma validateTransfer_frame:
  "validateTransfer oor s req = (r, s') \<Longrightarrow>
     rows s' = rows s \<and> now s' = now s \<and> set (faults s') \<subseteq> set (faults s) \<and>
     trace s' = trace s @ calls_since s s' \<and> list_all is_lookup (calls_since s s')"
  by (auto simp: validateTransfer_def calls_since_def
      split: if_splits prod.splits sum.splits dest!: GetAccountByNumber_frame)


lemma transferInTx_frame:
  assumes "transferInTx oor X Y req tx s = (res, tx', s')"
    and "d = int64_of_float64 oor (f64_mul100 (f64_neg (Amount req)))"
    and "c = int64_of_float64 oor (f64_mul100 (Amount req))"
  shows "now s' = now s \<and> set (faults s') \<subseteq> set (faults s) \<and>
     ((res = Inl DebitFailed \<and> rows s' = rows s \<and> tx' = tx \<and>
         trace s' = trace s @ [Call (TxExec d (ID X)) False]) \<or>
      (res = Inl CreditFailed \<and> rows s' = rows s \<and> closed tx' = closed tx \<and>
         trace s' = trace s @ [Call (TxExec d (ID X)) True, Call (TxExec c (ID Y)) False]) \<or>
      (res = Inl CommitFailed \<and> rows s' = rows s \<and> closed tx' \<and>
         trace s' = trace s @
           [Call (TxExec d (ID X)) True, Call (TxExec c (ID Y)) True, Call Commit False]) \<or>
      (res = Inr \<lparr>status = ''success'', from_account = FromAccountNumber req,
                  to_account = ToAccountNumber req, amount = Amount req,
                  transferred_at = now s\<rparr> \<and>
         rows s' = sql_update_balance c (ID Y) (sql_update_balance d (ID X) (pending tx)) \<and>
         closed tx' \<and>
         trace s' = trace s @
           [Call (TxExec d (ID X)) True, Call (TxExec c (ID Y)) True, Call Commit True]))"
proof -
  obtain e1 t1 s1 where u1:
    "UpdateAccountBalance oor (ID X) (f64_neg (Amount req)) (Some tx) s = (e1, t1, s1)"
    by (metis prod_cases3)
  note f1 = UpdateAccountBalance_tx_frame [OF u1, folded assms(2)]
  show ?thesis
  proof (cases e1)
    case (Some err)
    with f1 have "t1 = Some tx" by simp
    with u1 Some assms(1) have "res = Inl DebitFailed" "tx' = tx" "s' = s1"
      by (simp_all add: transferInTx_def)
    with f1 Some show ?thesis by simp
  next
    case None
    define tx1 where "tx1 = tx\<lparr>pending := sql_update_balance d (ID X) (pending tx)\<rparr>"
    from None f1 have t1: "t1 = Some tx1" and open1: "\<not> closed tx"
      by (simp_all add: tx1_def)
    obtain e2 t2 s2 where u2:
      "UpdateAccountBalance oor (ID Y) (Amount req) (Some tx1) s1 = (e2, t2, s2)"
      by (metis prod_cases3)
    note f2 = UpdateAccountBalance_tx_frame [OF u2, folded assms(3)]
    show ?thesis
    proof (cases e2)
      case (Some err)
      with f2 have "t2 = Some tx1" by simp
      with u1 u2 None t1 Some assms(1) have "res = Inl CreditFailed" "tx' = tx1" "s' = s2"
        by (simp_all add: transferInTx_def)
      with f1 f2 None Some show ?thesis by (auto simp: tx1_def)
    next
      case e2: None
      define tx2 where "tx2 = tx1\<lparr>pending := sql_update_balance c (ID Y) (pending tx1)\<rparr>"
      from e2 f2 have t2: "t2 = Some tx2" by (simp add: tx2_def)
      obtain e3 t3 s3 where u3: "CommitTx tx2 s2 = (e3, t3, s3)"
        by (metis prod_cases3)
      note f3 = CommitTx_frame [OF u3]
      show ?thesis
      proof (cases e3)
        case (Some err)
        with u1 u2 u3 None t1 e2 t2 assms(1)
        have "res = Inl CommitFailed" "tx' = t3" "s' = s3"
          by (simp_all add: transferInTx_def)
        with f1 f2 f3 None e2 Some show ?thesis by auto
      next
        case e3: None
        with u1 u2 u3 None t1 e2 t2 assms(1)
        have "res = Inr \<lparr>status = ''success'', from_account = FromAccountNumber req,
                  to_account = ToAccountNumber req, amount = Amount req,
                  transferred_at = now s3\<rparr>" "tx' = t3" "s' = s3"
          by (auto simp: transferInTx_def)
        with f1 f2 f3 None e2 e3 show ?thesis by (auto simp: tx1_def tx2_def)
      qed
    qed
  qed
qed

lemma performTransfer_outcome:
  assumes "performTransfer oor s req = (res, s')"
    and "d = int64_of_float64 oor (f64_mul100 (f64_neg (Amount req)))"
    and "c = int64_of_float64 oor (f64_mul100 (Amount req))"
    and "q1 = QueryByNumber (FromAccountNumber req)"
    and "q2 = QueryByNumber (ToAccountNumber req)"
  shows "now s' = now s \<and> set (faults s') \<subseteq> set (faults s) \<and>
     ((\<exists>ok. res = Inl (AccountMissing Source) \<and> rows s' = rows s \<and>
          calls_since s s' = [Call q1 ok]) \<or>
      (\<exists>ok. res = Inl (AccountMissing Destination) \<and> rows s' = rows s \<and>
          calls_since s s' = [Call q1 True, Call q2 ok]) \<or>
      (res = Inl BeginFailed \<and> rows s' = rows s \<and>
          calls_since s s' = [Call q1 True, Call q2 True, Call Begin False]) \<or>
      (\<exists>X Y ok.
          find (\<lambda>a. Number a = FromAccountNumber req) (rows s) = Some X \<and>
          find (\<lambda>a. Number a = ToAccountNumber req) (rows s) = Some Y \<and>
          ((res = Inl DebitFailed \<and> rows s' = rows s \<and>
              calls_since s s' = [Call q1 True, Call q2 True, Call Begin True,
                Call (TxExec d (ID X)) False, Call Rollback ok]) \<or>
           (res = Inl CreditFailed \<and> rows s' = rows s \<and>
              calls_since s s' = [Call q1 True, Call q2 True, Call Begin True,
                Call (TxExec d (ID X)) True, Call (TxExec c (ID Y)) False, Call Rollback ok]) \<or>
           (res = Inl CommitFailed \<and> rows s' = rows s \<and>
              calls_since s s' = [Call q1 True, Call q2 True, Call Begin True,
                Call (TxExec d (ID X)) True, Call (TxExec c (ID Y)) True, Call Commit False,
                Call Rollback False]) \<or>
           (res = Inr \<lparr>status = ''success'', from_account = FromAccountNumber req,
                  to_account = ToAccountNumber req, amount = Amount req,
                  transferred_at = now s\<rparr> \<and>
              rows s' = sql_update_balance c (ID Y) (sql_update_balance d (ID X) (rows s)) \<and>
              calls_since s s' = [Call q1 True, Call q2 True, Call Begin True,
                Call (TxExec d (ID X)) True, Call (TxExec c (ID Y)) True, Call Commit True,
                Call Rollback False]))))"
proof -
  obtain r1 s1 where g1: "GetAccountByNumber s (FromAccountNumber req) = (r1, s1)"
    by force
  note f1 = GetAccountByNumber_frame [OF g1, folded assms(4)]
  show ?thesis
  proof (cases r1)
    case (Inl e)
    with g1 assms(1) have "res = Inl (AccountMissing Source)" "s' = s1"
      by (simp_all add: performTransfer_def)
    with f1 show ?thesis by (auto simp: calls_since_def)
  next
    case X: (Inr X)
    obtain r2 s2 where g2: "GetAccountByNumber s1 (ToAccountNumber req) = (r2, s2)"
      by force
    note f2 = GetAccountByNumber_frame [OF g2, folded assms(5)]
    show ?thesis
    proof (cases r2)
      case (Inl e)
      with g1 g2 X assms(1) have "res = Inl (AccountMissing Destination)" "s' = s2"
        by (simp_all add: performTransfer_def)
      with f1 f2 X show ?thesis by (auto simp: calls_since_def)
    next
      case Y: (Inr Y)
      obtain r3 s3 where g3: "BeginTransaction s2 = (r3, s3)"
        by force
      note f3 = BeginTransaction_frame [OF g3]
      show ?thesis
      proof (cases r3)
        case (Inl e)
        with g1 g2 g3 X Y assms(1) have "res = Inl BeginFailed" "s' = s3"
          by (simp_all add: performTransfer_def)
        with f1 f2 f3 X Y Inl show ?thesis by (auto simp: calls_since_def)
      next
        case tx: (Inr tx)
        obtain r4 tx4 s4 where g4: "transferInTx oor X Y req tx s3 = (r4, tx4, s4)"
          by (metis prod_cases3)
        note f4 = transferInTx_frame [OF g4 assms(2) assms(3)]
        obtain r5 tx5 s5 where g5: "RollbackTx tx4 s4 = (r5, tx5, s5)"
          by (metis prod_cases3)
        note f5 = RollbackTx_frame [OF g5]
        from g1 g2 g3 g4 g5 X Y tx assms(1) have res: "res = r4" "s' = s5"
          by (simp_all add: performTransfer_def)
        from f3 tx have txv: "tx = \<lparr>pending = rows s, closed = False\<rparr>"
          using f1 f2 by simp
        have fx: "find (\<lambda>a. Number a = FromAccountNumber req) (rows s) = Some X"
          using f1 X by simp
        have fy: "find (\<lambda>a. Number a = ToAccountNumber req) (rows s) = Some Y"
          using f1 f2 Y by simp
        have tr3: "trace s3 = trace s @ [Call q1 True, Call q2 True, Call Begin True]"
          using f1 f2 f3 X Y tx by simp
        have "set (faults s5) \<subseteq> set (faults s4)" "set (faults s4) \<subseteq> set (faults s3)"
          "set (faults s3) \<subseteq> set (faults s2)" "set (faults s2) \<subseteq> set (faults s1)"
          "set (faults s1) \<subseteq> set (faults s)"
          using f1 f2 f3 f4 f5 by simp_all
        then have "set (faults s5) \<subseteq> set (faults s)"
          by blast
        moreover have "now s5 = now s"
          using f1 f2 f3 f4 f5 by simp
        ultimately have fr: "now s' = now s \<and> set (faults s') \<subseteq> set (faults s)"
          using res by simp
        have rs3: "rows s3 = rows s"
          using f1 f2 f3 by simp
        have n3: "now s3 = now s"
          using f1 f2 f3 by simp
        from f4 consider
            (debit) "r4 = Inl DebitFailed" "rows s4 = rows s3" "tx4 = tx"
              "trace s4 = trace s3 @ [Call (TxExec d (ID X)) False]"
          | (credit) "r4 = Inl CreditFailed" "rows s4 = rows s3" "closed tx4 = closed tx"
              "trace s4 = trace s3 @ [Call (TxExec d (ID X)) True, Call (TxExec c (ID Y)) False]"
          | (commit) "r4 = Inl CommitFailed" "rows s4 = rows s3" "closed tx4"
              "trace s4 = trace s3 @
                 [Call (TxExec d (ID X)) True, Call (TxExec c (ID Y)) True, Call Commit False]"
          | (success) "r4 = Inr \<lparr>status = ''success'', from_account = FromAccountNumber req,
                  to_account = ToAccountNumber req, amount = Amount req,
                  transferred_at = now s3\<rparr>"
              "rows s4 = sql_update_balance c (ID Y) (sql_update_balance d (ID X) (pending tx))"
              "closed tx4"
              "trace s4 = trace s3 @
                 [Call (TxExec d (ID X)) True, Call (TxExec c (ID Y)) True, Call Commit True]"
          by blast
        then show ?thesis
        proof cases
          case debit
          with f5 res tr3 rs3 fx fy fr txv show ?thesis
            by (auto simp: calls_since_def)
        next
          case credit
          with f5 res tr3 rs3 fx fy fr txv show ?thesis
            by (auto simp: calls_since_def)
        next
          case commit
          with f5 res tr3 rs3 fx fy fr txv show ?thesis
            by (auto simp: calls_since_def)
        next
          case success
          with f5 res tr3 rs3 n3 fx fy fr txv show ?thesis
            by (auto simp: calls_since_def)
        qed
      qed
    qed
  qed
qed

section \<open>A store that does not fail\<close>

lemma driver_no_fault:
  "no_fault (Suc n) s \<Longrightarrow>
     \<exists>s'. driver c s = (True, s') \<and> rows s' = rows s \<and> now s' = now s \<and>
       trace s' = trace s @ [Call c True] \<and> no_fault n s'"
  by (cases "faults s") (auto simp: driver_def no_fault_def logged_simps dest: in_set_takeD)

lemma GetAccountByNumber_no_fault:
  "no_fault (Suc n) s \<Longrightarrow> find (\<lambda>a. Number a = num) (rows s) = Some a \<Longrightarrow>
     \<exists>s'. GetAccountByNumber s num = (Inr a, s') \<and> rows s' = rows s \<and> now s' = now s \<and>
       trace s' = trace s @ [Call (QueryByNumber num) True] \<and> no_fault n s'"
  using driver_no_fault [of n s "QueryByNumber num"]
  by (auto simp: GetAccountByNumber_def)

lemma BeginTransaction_no_fault:
  "no_fault (Suc n) s \<Longrightarrow>
     \<exists>s'. BeginTransaction s = (Inr \<lparr>pending = rows s, closed = False\<rparr>, s') \<and>
       rows s' = rows s \<and> now s' = now s \<and> no_fault n s'"
  using driver_no_fault [of n s Begin]
  by (auto simp: BeginTransaction_def)

lemma UpdateAccountBalance_no_fault:
  "no_fault (Suc n) s \<Longrightarrow> \<not> closed t \<Longrightarrow>
     \<exists>s'. UpdateAccountBalance oor i amt (Some t) s =
         (None,
          Some (t\<lparr>pending :=
            sql_update_balance (int64_of_float64 oor (f64_mul100 amt)) i (pending t)\<rparr>), s') \<and>
       rows s' = rows s \<and> now s' = now s \<and> no_fault n s'"
  using driver_no_fault [of n s "TxExec (int64_of_float64 oor (f64_mul100 amt)) i"]
  by (auto simp: UpdateAccountBalance_def)

lemma CommitTx_no_fault:
  "no_fault (Suc n) s \<Longrightarrow> \<not> closed t \<Longrightarrow>
     \<exists>s'. CommitTx t s = (None, t\<lparr>closed := True\<rparr>, s') \<and>
       rows s' = pending t \<and> now s' = now s \<and> no_fault n s'"
  using driver_no_fault [of n s Commit]
  by (auto simp: CommitTx_def no_fault_def)

lemma RollbackTx_closed:
  "closed t \<Longrightarrow> RollbackTx t s = (Some TxDone, t, logged Rollback False s)"
  by (simp add: RollbackTx_def)

lemma validateTransfer_no_fault:
  assumes "no_fault (Suc (Suc n)) s"
    and "\<not> f64_le_zero (Amount req)"
    and "find (\<lambda>a. Number a = FromAccountNumber req) (rows s) = Some X"
    and "find (\<lambda>a. Number a = ToAccountNumber req) (rows s) = Some Y"
    and "FromAccountNumber req \<noteq> ToAccountNumber req"
    and "\<not> Balance X < int64_of_float64 oor (Amount req)"
  shows "\<exists>s'. validateTransfer oor s req = (None, s') \<and>
       rows s' = rows s \<and> now s' = now s \<and> no_fault n s'"
proof -
  from GetAccountByNumber_no_fault [OF assms(1,3)]
  obtain s1 where g1: "GetAccountByNumber s (FromAccountNumber req) = (Inr X, s1)"
    and s1: "rows s1 = rows s" "now s1 = now s" "no_fault (Suc n) s1"
    by blast
  from assms(4) s1 have "find (\<lambda>a. Number a = ToAccountNumber req) (rows s1) = Some Y"
    by simp
  from GetAccountByNumber_no_fault [OF s1(3) this]
  obtain s2 where g2: "GetAccountByNumber s1 (ToAccountNumber req) = (Inr Y, s2)"
    and s2: "rows s2 = rows s1" "now s2 = now s1" "no_fault n s2"
    by blast
  from assms(3,4,5) have "Number X \<noteq> Number Y"
    by (auto dest!: find_Number)
  with assms(2,6) g1 g2 have "validateTransfer oor s req = (None, s2)"
    by (simp add: validateTransfer_def)
  with s1 s2 show ?thesis by simp
qed

lemma performTransfer_no_fault:
  assumes "no_fault (Suc (Suc (Suc (Suc (Suc (Suc n)))))) s"
    and "find (\<lambda>a. Number a = FromAccountNumber req) (rows s) = Some X"
    and "find (\<lambda>a. Number a = ToAccountNumber req) (rows s) = Some Y"
  shows "\<exists>s'. performTransfer oor s req =
       (Inr \<lparr>status = ''success'', from_account = FromAccountNumber req,
              to_account = ToAccountNumber req, amount = Amount req,
              transferred_at = now s\<rparr>, s') \<and>
       rows s' =
         sql_update_balance (int64_of_float64 oor (f64_mul100 (Amount req))) (ID Y)
           (sql_update_balance (int64_of_float64 oor (f64_mul100 (f64_neg (Amount req))))
              (ID X) (rows s))"
proof -
  let ?d = "int64_of_float64 oor (f64_mul100 (f64_neg (Amount req)))"
  let ?c = "int64_of_float64 oor (f64_mul100 (Amount req))"
  from GetAccountByNumber_no_fault [OF assms(1,2)]
  obtain s1 where g1: "GetAccountByNumber s (FromAccountNumber req) = (Inr X, s1)"
    and s1: "rows s1 = rows s" "now s1 = now s" "no_fault (Suc (Suc (Suc (Suc (Suc n))))) s1"
    by blast
  from assms(3) s1 have "find (\<lambda>a. Number a = ToAccountNumber req) (rows s1) = Some Y"
    by simp
  from GetAccountByNumber_no_fault [OF s1(3) this]
  obtain s2 where g2: "GetAccountByNumber s1 (ToAccountNumber req) = (Inr Y, s2)"
    and s2: "rows s2 = rows s1" "now s2 = now s1" "no_fault (Suc (Suc (Suc (Suc n)))) s2"
    by blast
  define tx where "tx = \<lparr>pending = rows s2, closed = False\<rparr>"
  from BeginTransaction_no_fault [OF s2(3)]
  obtain s3 where g3: "BeginTransaction s2 = (Inr tx, s3)"
    and s3: "rows s3 = rows s2" "now s3 = now s2" "no_fault (Suc (Suc (Suc n))) s3"
    unfolding tx_def by blast
  define tx1 where "tx1 = tx\<lparr>pending := sql_update_balance ?d (ID X) (pending tx)\<rparr>"
  have "\<not> closed tx" by (simp add: tx_def)
  from UpdateAccountBalance_no_fault [OF s3(3) this]
  obtain s4 where g4:
      "UpdateAccountBalance oor (ID X) (f64_neg (Amount req)) (Some tx) s3 = (None, Some tx1, s4)"
    and s4: "rows s4 = rows s3" "now s4 = now s3" "no_fault (Suc (Suc n)) s4"
    unfolding tx1_def by blast
  define tx2 where "tx2 = tx1\<lparr>pending := sql_update_balance ?c (ID Y) (pending tx1)\<rparr>"
  have "\<not> closed tx1" by (simp add: tx1_def tx_def)
  from UpdateAccountBalance_no_fault [OF s4(3) this]
  obtain s5 where g5:
      "UpdateAccountBalance oor (ID Y) (Amount req) (Some tx1) s4 = (None, Some tx2, s5)"
    and s5: "rows s5 = rows s4" "now s5 = now s4" "no_fault (Suc n) s5"
    unfolding tx2_def by blast
  have "\<not> closed tx2" by (simp add: tx2_def tx1_def tx_def)
  from CommitTx_no_fault [OF s5(3) this]
  obtain s6 where g6: "CommitTx tx2 s5 = (None, tx2\<lparr>closed := True\<rparr>, s6)"
    and s6: "rows s6 = pending tx2" "now s6 = now s5"
    by blast
  have g7: "RollbackTx (tx2\<lparr>closed := True\<rparr>) s6 =
      (Some TxDone, tx2\<lparr>closed := True\<rparr>, logged Rollback False s6)"
    by (simp add: RollbackTx_closed)
  have t: "transferInTx oor X Y req tx s3 =
      (Inr \<lparr>status = ''success'', from_account = FromAccountNumber req,
              to_account = ToAccountNumber req, amount = Amount req,
              transferred_at = now s6\<rparr>, tx2\<lparr>closed := True\<rparr>, s6)"
    using g4 g5 g6 by (simp add: transferInTx_def)
  have "performTransfer oor s req =
      (Inr \<lparr>status = ''success'', from_account = FromAccountNumber req,
              to_account = ToAccountNumber req, amount = Amount req,
              transferred_at = now s6\<rparr>, logged Rollback False s6)"
    using g1 g2 g3 t g7 by (simp add: performTransfer_def)
  moreover have "now s6 = now s"
    using s1 s2 s3 s4 s5 s6 by simp
  moreover have "rows (logged Rollback False s6) =
      sql_update_balance ?c (ID Y) (sql_update_balance ?d (ID X) (rows s))"
    using s1 s2 s6 by (simp add: logged_simps tx2_def tx1_def tx_def)
  ultimately show ?thesis by simp
qed

section \<open>The UPDATE statement\<close>






lemma sql_update_balance_zero: "sql_update_balance 0 i rs = rs"
  by (simp add: sql_update_balance_def map_idI)


section \<open>Conversions of float64\<close>

text \<open>
  \<open>int64(x)\<close> truncates towards zero, and \<open>x * 100\<close> is the real product rounded as
  IEEE 754 says: the code's conversion is \<open>spec_minor_units\<close> wherever that fits 64 bits.
\<close>

lemma fin_val_powi: "fin_val m e = of_int m * 2 powi e"
  by (cases "0 \<le> e") (simp_all add: fin_val_def power_int_def power_inverse field_simps)

lemma trunc_fin_towards_zero:
  "trunc_fin m e = (if 0 \<le> fin_val m e then \<lfloor>fin_val m e\<rfloor> else \<lceil>fin_val m e\<rceil>)"
proof (cases "0 \<le> e")
  case True
  have "fin_val m e = of_int (m * 2 ^ nat e)"
    using True by (simp add: fin_val_def)
  then show ?thesis
    using True by (simp add: trunc_fin_def del: of_int_mult)
next
  case False
  define n where "n = nat (- e)"
  have v: "fin_val m e = of_int m / of_int (2 ^ n)"
    using False by (simp add: fin_val_def n_def)
  have fl: "\<lfloor>fin_val m e\<rfloor> = m div 2 ^ n"
    unfolding v by (rule floor_divide_of_int_eq)
  show ?thesis
  proof (cases "0 \<le> m")
    case True
    then have "0 \<le> fin_val m e" by (simp add: v)
    with True False fl show ?thesis
      by (cases "m = 0") (simp_all add: trunc_fin_def n_def)
  next
    case neg: False
    then have lt: "fin_val m e < 0" by (simp add: v divide_neg_pos)
    have "\<lceil>fin_val m e\<rceil> = - \<lfloor>of_int (- m) / (of_int (2 ^ n) :: real)\<rfloor>"
      unfolding v ceiling_def by simp
    also have "\<dots> = - ((- m) div 2 ^ n)"
      by (simp only: floor_divide_of_int_eq)
    finally show ?thesis
      using neg False lt by (simp add: trunc_fin_def n_def)
  qed
qed

lemma trunc_fin_minus: "trunc_fin (- m) e = - trunc_fin m e"
  by (simp add: trunc_fin_def)

lemma trunc_fin_nonneg: "0 \<le> m \<Longrightarrow> 0 \<le> trunc_fin m e"
  by (simp add: trunc_fin_def pos_imp_zdiv_nonneg_iff sgn_if)

lemma rne_shift_nonneg: "0 \<le> p \<Longrightarrow> 0 \<le> rne_shift p k"
  by (simp add: rne_shift_def Let_def pos_imp_zdiv_nonneg_iff)

lemma rne_shift_bounds:
  assumes "0 \<le> p"
  shows "p div 2 ^ k \<le> rne_shift p k" and "rne_shift p k \<le> p div 2 ^ k + 1"
    and "rne_shift p k \<noteq> p div 2 ^ k \<Longrightarrow> 2 ^ k \<le> 2 * (p mod 2 ^ k)"
  by (auto simp: rne_shift_def Let_def split: if_splits)

lemma round_half_even_of_int: "round_half_even (of_int n) = n"
  by (simp add: round_half_even_def)

lemma round_half_even_shift:
  assumes "0 \<le> P"
  shows "round_half_even (of_int P / 2 ^ K) = rne_shift P K"
proof -
  define f where "f = P div 2 ^ K"
  define r where "r = P mod 2 ^ K"
  have P: "P = f * 2 ^ K + r"
    unfolding f_def r_def by (simp only: div_mult_mod_eq)
  have fl: "\<lfloor>of_int P / (2 ^ K :: real)\<rfloor> = f"
    using floor_divide_of_int_eq [of P "2 ^ K", where ?'a = real] by (simp add: f_def)
  have "(of_int P :: real) = of_int f * 2 ^ K + of_int r"
    by (subst P) simp
  then have frac: "of_int P / (2 ^ K :: real) - of_int f = of_int r / 2 ^ K"
    by (simp add: field_simps)
  have lt: "of_int r / (2 ^ K :: real) < 1 / 2 \<longleftrightarrow> 2 * r < 2 ^ K"
  proof -
    have "of_int r / (2 ^ K :: real) < 1 / 2 \<longleftrightarrow> (of_int (2 * r) :: real) < of_int (2 ^ K)"
      by (simp add: field_simps)
    also have "\<dots> \<longleftrightarrow> 2 * r < 2 ^ K"
      by (simp only: of_int_less_iff)
    finally show ?thesis .
  qed
  have gt: "1 / 2 < of_int r / (2 ^ K :: real) \<longleftrightarrow> 2 ^ K < 2 * r"
  proof -
    have "1 / 2 < of_int r / (2 ^ K :: real) \<longleftrightarrow> (of_int (2 ^ K) :: real) < of_int (2 * r)"
      by (simp add: field_simps)
    also have "\<dots> \<longleftrightarrow> 2 ^ K < 2 * r"
      by (simp only: of_int_less_iff)
    finally show ?thesis .
  qed
  show ?thesis
    unfolding round_half_even_def Let_def fl frac lt gt
    by (auto simp: rne_shift_def Let_def f_def r_def)
qed

lemma log2_powi: "log 2 (2 powi e) = of_int e"
proof -
  have "(2::real) powi e = 2 powr of_int e"
    by (simp add: powr_real_of_int')
  then show ?thesis by simp
qed

lemma floor_log2_fin:
  assumes "0 < P"
  shows "\<lfloor>log 2 (of_int P * 2 powi e)\<rfloor> = bitlen P - 1 + e"
proof -
  have "log 2 (of_int P * 2 powi e) = log 2 (of_int P) + of_int e"
    using assms by (simp add: log_mult log2_powi)
  then have "\<lfloor>log 2 (of_int P * 2 powi e)\<rfloor> = \<lfloor>log 2 (of_int P)\<rfloor> + e"
    by simp
  then show ?thesis
    using assms by (simp add: bitlen_alt_def)
qed

text \<open>
  The product computed by \<open>f64_mul100\<close>, before its overflow test, is the IEEE rounding
  of the real product.
\<close>

lemma mul100_rounds:
  assumes k: "k = bitlen \<bar>m * 100\<bar> - 53"
    and Q: "Q = (if k \<le> 0 then \<bar>m * 100\<bar> else rne_shift \<bar>m * 100\<bar> (nat k))"
    and E: "E = (if k \<le> 0 then e else e + k)"
  shows "fin_val (sgn (m * 100) * Q) E = ieee_round_float64 (100 * fin_val m e)"
proof (cases "m = 0")
  case True
  then show ?thesis
    using k Q by (simp add: fin_val_powi ieee_round_float64_def)
next
  case False
  define p where "p = m * 100"
  define P where "P = \<bar>p\<bar>"
  define x where "x = 100 * fin_val m e"
  have P0: "0 < P" using False by (simp add: P_def p_def)
  have x: "x = of_int p * 2 powi e"
    by (simp add: x_def p_def fin_val_powi)
  have ax: "\<bar>x\<bar> = of_int P * 2 powi e"
    by (simp add: x P_def abs_mult)
  have x0: "x \<noteq> 0" using False by (simp add: x p_def)
  have "sgn (of_int p :: real) = of_int (sgn p)"
    by (simp add: sgn_if)
  moreover have "sgn ((2::real) powi e) = 1"
    by (simp add: sgn_if)
  ultimately have sx: "sgn x = of_int (sgn p)"
    by (simp add: x sgn_mult)
  have lg: "\<lfloor>log 2 \<bar>x\<bar>\<rfloor> - 52 = e + k"
    unfolding ax floor_log2_fin [OF P0] using k by (simp add: P_def p_def)
  have y: "\<bar>x\<bar> / 2 powi (e + k) = of_int P * 2 powi (- k)"
    by (simp add: ax power_int_add power_int_minus field_simps)
  have r: "ieee_round_float64 x =
      of_int (sgn p) * of_int (round_half_even (of_int P * 2 powi (- k))) * 2 powi (e + k)"
    using x0 by (simp add: ieee_round_float64_def Let_def lg y sx)
  show ?thesis
  proof (cases "k \<le> 0")
    case True
    then have "(of_int P :: real) * 2 powi (- k) = of_int (P * 2 ^ nat (- k))"
      by (simp add: power_int_def)
    then have "round_half_even (of_int P * 2 powi (- k)) = P * 2 ^ nat (- k)"
      by (simp only: round_half_even_of_int)
    then have "ieee_round_float64 x =
        of_int (sgn p) * (of_int P * 2 powi (- k)) * 2 powi (e + k)"
      using True by (simp add: r power_int_def)
    also have "\<dots> = of_int (sgn p * P) * 2 powi e"
      by (simp add: power_int_add power_int_minus field_simps)
    finally have rr: "ieee_round_float64 x = of_int (sgn p * P) * 2 powi e" .
    have Qe: "Q = P" "E = e"
      using True Q E by (simp_all add: P_def p_def)
    have "fin_val (sgn p * Q) E = ieee_round_float64 x"
      by (simp add: rr Qe fin_val_powi)
    then show ?thesis
      by (simp only: p_def x_def)
  next
    case False
    then have "(of_int P :: real) * 2 powi (- k) = of_int P / 2 ^ nat k"
      by (simp add: power_int_def field_simps power_inverse)
    then have "round_half_even (of_int P * 2 powi (- k)) = rne_shift P (nat k)"
      using P0 by (simp add: round_half_even_shift)
    with r have rr: "ieee_round_float64 x =
        of_int (sgn p) * of_int (rne_shift P (nat k)) * 2 powi (e + k)"
      by simp
    have Qe: "Q = rne_shift P (nat k)" "E = e + k"
      using False Q E by (simp_all add: P_def p_def)
    have "fin_val (sgn p * Q) E = ieee_round_float64 x"
      by (simp add: rr Qe fin_val_powi)
    then show ?thesis
      by (simp only: p_def x_def)
  qed
qed

lemma trunc_fin_is_spec: "trunc_fin m e = spec_trunc_toward_zero (fin_val m e)"
  by (simp only: spec_trunc_toward_zero_def trunc_fin_towards_zero)

lemma spec_minor_units_code:
  assumes "f64_mul100 (Fin m e) = Fin q e'"
  shows "spec_minor_units (fin_val m e) = trunc_fin q e'"
proof -
  define k where "k = bitlen \<bar>m * 100\<bar> - 53"
  define Q where "Q = (if k \<le> 0 then \<bar>m * 100\<bar> else rne_shift \<bar>m * 100\<bar> (nat k))"
  define E where "E = (if k \<le> 0 then e else e + k)"
  have "f64_mul100 (Fin m e) =
      (if 1024 < bitlen Q + E then Inf (m * 100 < 0) else Fin (sgn (m * 100) * Q) E)"
    by (simp add: f64_mul100_def Let_def k_def Q_def E_def)
  with assms have "q = sgn (m * 100) * Q" "e' = E"
    by (simp_all split: if_splits)
  with mul100_rounds [OF k_def Q_def E_def]
  have "fin_val q e' = ieee_round_float64 (100 * fin_val m e)"
    by simp
  then show ?thesis
    by (simp add: spec_minor_units_def trunc_fin_is_spec)
qed






text \<open>
  0.29 is read as the \<^verbatim>\<open>float64\<close> \<open>5224175567749775 * 2 ^ - 54\<close>; its product with 100
  rounds to \<open>8162774324609023 * 2 ^ - 48\<close>, just below 29, which is 28 minor units.
\<close>

lemma twenty_nine_hundredths:
  "spec_minor_units (fin_val 5224175567749775 (- 54)) = 28"
proof -
  have "f64_mul100 (Fin 5224175567749775 (- 54)) = Fin 8162774324609023 (- 48)"
    by code_simp
  moreover have "trunc_fin 8162774324609023 (- 48) = 28"
    by code_simp
  ultimately show ?thesis
    by (simp add: spec_minor_units_code)
qed

lemma debit_is_minus_credit:
  assumes "\<not> f64_le_zero a" and "int64_fits (f64_mul100 a)"
  shows "int64_of_float64 oor (f64_mul100 (f64_neg a)) = - int64_of_float64 oor (f64_mul100 a)"
proof (cases a)
  case (Inf neg)
  with assms(2) show ?thesis by (simp add: f64_mul100_def int64_fits_def)
next
  case (Fin m e)
  with assms(1) have m: "0 < m" by (simp add: f64_le_zero_def)
  define k where "k = bitlen \<bar>m * 100\<bar> - 53"
  define q where "q = (if k \<le> 0 then \<bar>m * 100\<bar> else rne_shift \<bar>m * 100\<bar> (nat k))"
  define e' where "e' = (if k \<le> 0 then e else e + k)"
  have q0: "0 \<le> q" by (simp add: q_def rne_shift_nonneg)
  have pos: "f64_mul100 a = (if 1024 < bitlen q + e' then Inf False else Fin q e')"
    using m by (simp add: Fin f64_mul100_def Let_def k_def q_def e'_def)
  have neg: "f64_mul100 (f64_neg a) = (if 1024 < bitlen q + e' then Inf True else Fin (- q) e')"
    using m by (simp add: Fin f64_neg_def f64_mul100_def Let_def k_def q_def e'_def)
  from assms(2) pos have nov: "\<not> 1024 < bitlen q + e'"
    by (auto simp: int64_fits_def split: if_splits)
  with assms(2) pos have fit: "- (2 ^ 63) \<le> trunc_fin q e'" "trunc_fin q e' < 2 ^ 63"
    by (simp_all add: int64_fits_def)
  have "0 \<le> trunc_fin q e'" using q0 by (rule trunc_fin_nonneg)
  with fit have "int64_fits (Fin (- q) e')"
    by (simp add: int64_fits_def trunc_fin_minus)
  with nov pos neg assms(2) show ?thesis
    by (simp add: int64_of_float64_def trunc_fin_minus)
qed

section \<open>Amounts below one minor unit\<close>

text \<open>
  A positive \<^verbatim>\<open>float64\<close> below 0.01 has a product with 100 that is below 1 before rounding.
  Rounding to 53 bits could reach 1 only from \<open>1 - 2 ^ - 54\<close> on, and no multiple of 100
  with a factor below \<open>2 ^ 53\<close> lies that close below a power of two.
\<close>

lemma no_multiple_of_200:
  fixes m :: int and k :: nat
  assumes "m < 2 ^ 53" and "1 \<le> k"
    and "(2 ^ 54 - 1) * 2 ^ k \<le> 200 * m" and "200 * m < 2 ^ 54 * 2 ^ k"
  shows False
proof -
  have "k < 7"
  proof (rule ccontr)
    assume "\<not> k < 7"
    then have "(2::int) ^ 7 \<le> 2 ^ k"
      by (intro power_increasing) simp_all
    then have "(2 ^ 54 - 1) * (2::int) ^ 7 \<le> (2 ^ 54 - 1) * 2 ^ k"
      by (intro mult_left_mono) simp_all
    with assms(1,3) show False by simp
  qed
  with assms(2) consider "k = 1" | "k = 2" | "k = 3" | "k = 4" | "k = 5" | "k = 6"
    by linarith
  then show False
    using assms(3,4) by cases (simp_all, presburger+)
qed

lemma sub_cent_product:
  assumes m: "0 < m" "m < 2 ^ 53" and v: "fin_val m e < 1 / 100"
  shows "trunc_fin m e = 0 \<and>
     (\<exists>q e'. f64_mul100 (Fin m e) = Fin q e' \<and> trunc_fin q e' = 0)"
proof -
  have e: "e < 0"
  proof (rule ccontr)
    assume "\<not> e < 0"
    then have "fin_val m e = of_int (m * 2 ^ nat e)"
      by (simp add: fin_val_def)
    moreover have "1 * 1 \<le> m * 2 ^ nat e"
      using m(1) by (intro mult_mono) simp_all
    ultimately have "1 \<le> fin_val m e"
      by (simp only: of_int_1_le_iff mult_1)
    with v show False by simp
  qed
  define n where "n = nat (- e)"
  define p where "p = m * 100"
  have n: "0 < n" "e = - int n"
    using e by (simp_all add: n_def)
  have "of_int m / 2 ^ n < (1 / 100 :: real)"
    using v e by (simp add: fin_val_def n_def)
  then have "(of_int (m * 100) :: real) < of_int (2 ^ n)"
    by (simp add: field_simps)
  then have pn: "p < 2 ^ n"
    unfolding p_def by (simp only: of_int_less_iff)
  have p0: "0 < p" "\<bar>p\<bar> = p" "sgn p = 1"
    using m(1) by (simp_all add: p_def)
  have mn: "m < 2 ^ n"
    using pn m(1) by (simp add: p_def)
  have tm: "trunc_fin m e = 0"
    using e m(1) mn by (simp add: trunc_fin_def n_def div_pos_pos_trivial)
  have bl: "bitlen p \<le> int n"
    using pn by (simp add: bitlen_le_iff_power)
  have bp: "p < 2 ^ nat (bitlen p)"
    using bitlen_bounds [OF p0(1)] by simp
  have prod: "\<exists>q e'. f64_mul100 (Fin m e) = Fin q e' \<and> trunc_fin q e' = 0"
  proof (cases "bitlen p - 53 \<le> 0")
    case True
    then have "\<not> 1024 < bitlen p + e"
      using e by simp
    with True have "f64_mul100 (Fin m e) = Fin p e"
      using p0 by (simp add: f64_mul100_def Let_def p_def [symmetric])
    moreover have "trunc_fin p e = 0"
      using e p0(1) pn by (simp add: trunc_fin_def n_def div_pos_pos_trivial)
    ultimately show ?thesis by blast
  next
    case False
    define k where "k = nat (bitlen p - 53)"
    define q where "q = rne_shift p k"
    have k: "0 < k" "bitlen p = 53 + int k"
      using False by (simp_all add: k_def)
    have kn: "53 + k \<le> n"
      using bl k(2) by simp
    have "p < 2 ^ (53 + k)"
      using bp k(2) by (simp add: nat_add_distrib)
    then have pk: "p < 2 ^ 53 * 2 ^ k"
      by (simp add: power_add)
    have q0: "p div 2 ^ k < 2 ^ 53"
    proof (rule ccontr)
      assume "\<not> p div 2 ^ k < 2 ^ 53"
      then have "2 ^ 53 * 2 ^ k \<le> p div 2 ^ k * 2 ^ k"
        by (intro mult_right_mono) simp_all
      also have "\<dots> \<le> p"
      proof -
        have "0 \<le> p mod 2 ^ k" by simp
        with div_mult_mod_eq [of p "2 ^ k"] show ?thesis by linarith
      qed
      finally show False using pk by simp
    qed
    have qb: "0 \<le> q" "q \<le> 2 ^ 53"
      using rne_shift_bounds(2) [of p k] rne_shift_nonneg [of p k] p0(1) q0
      by (simp_all add: q_def)
    have "q < 2 ^ nat 54"
      using qb by simp
    then have "bitlen q \<le> 54"
      by (simp only: bitlen_le_iff_power) simp
    then have nov: "\<not> 1024 < bitlen q + (e + (bitlen p - 53))"
      using kn k(2) n(2) by simp
    have "f64_mul100 (Fin m e) = Fin q (e + (bitlen p - 53))"
      using False nov p0
      by (simp add: f64_mul100_def Let_def p_def [symmetric] q_def k_def)
    then have res: "f64_mul100 (Fin m e) = Fin q (e + int k)"
      by (simp only: k(2)) simp
    have ne: "nat (- (e + int k)) = n - k" "e + int k < 0"
      using kn n(2) by simp_all
    have "q < 2 ^ (n - k)"
    proof (cases "53 + k = n")
      case False
      with kn have "54 \<le> n - k" by simp
      then have "(2::int) ^ 54 \<le> 2 ^ (n - k)"
        by (intro power_increasing) simp_all
      with qb(2) show ?thesis by simp
    next
      case True
      have "q < 2 ^ 53"
      proof (rule ccontr)
        assume "\<not> q < 2 ^ 53"
        with qb(2) have q53: "q = 2 ^ 53" by simp
        with q0 have "rne_shift p k \<noteq> p div 2 ^ k"
          by (simp add: q_def)
        from rne_shift_bounds(3) [OF _ this] p0(1)
        have half: "2 ^ k \<le> 2 * (p mod 2 ^ k)" by simp
        have "p div 2 ^ k = 2 ^ 53 - 1"
          using rne_shift_bounds(2) [of p k] p0(1) q0 q53 by (simp add: q_def)
        then have "p = (2 ^ 53 - 1) * 2 ^ k + p mod 2 ^ k"
          using div_mult_mod_eq [of p "2 ^ k"] by simp
        then have "2 * p = (2 ^ 54 - 2) * 2 ^ k + 2 * (p mod 2 ^ k)"
          by (simp add: algebra_simps)
        with half have "(2 ^ 54 - 1) * 2 ^ k \<le> 2 * p"
          by (simp add: algebra_simps)
        then have lo: "(2 ^ 54 - 1) * 2 ^ k \<le> 200 * m"
          by (simp add: p_def)
        have hi: "200 * m < 2 ^ 54 * 2 ^ k"
          using pk by (simp add: p_def)
        from no_multiple_of_200 [OF m(2) _ lo hi] k(1) show False
          by simp
      qed
      with True show ?thesis by auto
    qed
    then have "trunc_fin q (e + int k) = 0"
      using ne qb(1) by (simp add: trunc_fin_def div_pos_pos_trivial)
    with res show ?thesis by blast
  qed
  from tm prod show ?thesis by simp
qed

section \<open>Transfers whose minor units fit\<close>


section \<open>Validation\<close>

text \<open>
  C6. A request whose amount is zero or negative is rejected with \<open>InvalidAmount\<close>, and
  the store is not called at all: the state, with its trace of calls, is the one before.
\<close>

theorem nonpositive_amount_rejected_before_lookup:
  "f64_le_zero (Amount req) \<Longrightarrow>
     validateTransfer oor s req = (Some InvalidAmount, s) \<and>
     handleTransfer oor s req = (Inl InvalidAmount, s) \<and>
     calls_since s (snd (handleTransfer oor s req)) = []"
  by (simp add: validateTransfer_def handleTransfer_def calls_since_def)

theorem nonpositive_amount_rejected_before_lookup_witness:
  "f64_le_zero (Amount req_zero) \<and>
   validateTransfer oor_amd64 bank req_zero = (Some InvalidAmount, bank) \<and>
   handleTransfer oor_amd64 bank req_zero = (Inl InvalidAmount, bank) \<and>
   calls_since bank (snd (handleTransfer oor_amd64 bank req_zero)) = []"
proof -
  have h: "f64_le_zero (Amount req_zero)"
    by (simp add: req_zero_def f64_le_zero_def)
  show ?thesis
    using h nonpositive_amount_rejected_before_lookup [OF h, of oor_amd64 bank] by blast
qed

text \<open>
  C9. When validation fails, with one of its five errors, the handler returns that error
  at once: the committed table is the one before, every call made to the store is an
  account lookup, and \<open>BeginTransaction\<close> has not been called.
\<close>

theorem validation_failure_has_no_effect:
  assumes "validateTransfer oor s req = (Some err, s')"
  shows "handleTransfer oor s req = (Inl err, s') \<and>
     rows s' = rows s \<and>
     list_all is_lookup (calls_since s s') \<and>
     Call Begin True \<notin> set (calls_since s s') \<and>
     Call Begin False \<notin> set (calls_since s s') \<and>
     err \<in> {InvalidAmount, AccountNotFound Source, AccountNotFound Destination,
              SelfTransfer, InsufficientFunds}"
proof -
  have "handleTransfer oor s req = (Inl err, s')"
    using assms by (simp add: handleTransfer_def)
  moreover have "rows s' = rows s" "list_all is_lookup (calls_since s s')"
    using validateTransfer_frame [OF assms] by simp_all
  moreover from this(2) have "Call Begin True \<notin> set (calls_since s s')"
    "Call Begin False \<notin> set (calls_since s s')"
    by (auto simp: list_all_iff)
  moreover have "err \<in> {InvalidAmount, AccountNotFound Source, AccountNotFound Destination,
              SelfTransfer, InsufficientFunds}"
    using assms
    by (auto simp: validateTransfer_def split: if_splits prod.splits sum.splits)
  ultimately show ?thesis by simp
qed

theorem validation_failure_has_no_effect_witness:
  "validateTransfer oor_amd64 bank req_too_much =
     (Some InsufficientFunds, snd (validateTransfer oor_amd64 bank req_too_much)) \<and>
   handleTransfer oor_amd64 bank req_too_much =
     (Inl InsufficientFunds, snd (validateTransfer oor_amd64 bank req_too_much)) \<and>
   rows (snd (handleTransfer oor_amd64 bank req_too_much)) = rows bank \<and>
   calls_since bank (snd (validateTransfer oor_amd64 bank req_too_much)) =
     [Call (QueryByNumber 1003) True, Call (QueryByNumber 1002) True]"
proof -
  have v: "validateTransfer oor_amd64 bank req_too_much =
     (Some InsufficientFunds, snd (validateTransfer oor_amd64 bank req_too_much))"
    by code_simp
  have c: "calls_since bank (snd (validateTransfer oor_amd64 bank req_too_much)) =
     [Call (QueryByNumber 1003) True, Call (QueryByNumber 1002) True]"
    by code_simp
  show ?thesis
    using v c validation_failure_has_no_effect [OF v] by simp
qed

text \<open>
  C5. A request whose two account numbers are equal is rejected with \<open>SelfTransfer\<close>
  when its amount is positive and the two lookups of that number succeed, however large
  the amount and whatever the balance; the committed table is the one before.
\<close>

theorem self_transfer_rejected:
  assumes "\<not> f64_le_zero (Amount req)"
    and "FromAccountNumber req = ToAccountNumber req"
    and "find (\<lambda>a. Number a = FromAccountNumber req) (rows s) = Some X"
    and "no_fault 2 s"
  shows "fst (validateTransfer oor s req) = Some SelfTransfer \<and>
     fst (handleTransfer oor s req) = Inl SelfTransfer \<and>
     rows (snd (handleTransfer oor s req)) = rows s"
proof -
  from assms(4) have "no_fault (Suc (Suc 0)) s" by (simp add: numeral_2_eq_2)
  from GetAccountByNumber_no_fault [OF this assms(3)]
  obtain s1 where g1: "GetAccountByNumber s (FromAccountNumber req) = (Inr X, s1)"
    and s1: "rows s1 = rows s" "no_fault (Suc 0) s1"
    by blast
  from assms(2,3) s1 have "find (\<lambda>a. Number a = ToAccountNumber req) (rows s1) = Some X"
    by simp
  from GetAccountByNumber_no_fault [OF s1(2) this]
  obtain s2 where g2: "GetAccountByNumber s1 (ToAccountNumber req) = (Inr X, s2)"
    and s2: "rows s2 = rows s1"
    by blast
  have v: "validateTransfer oor s req = (Some SelfTransfer, s2)"
    using assms(1) g1 g2 by (simp add: validateTransfer_def)
  then show ?thesis
    using s1 s2 by (simp add: handleTransfer_def)
qed

theorem self_transfer_rejected_witness:
  "\<not> f64_le_zero (Amount req_self) \<and>
   FromAccountNumber req_self = ToAccountNumber req_self \<and>
   find (\<lambda>a. Number a = FromAccountNumber req_self) (rows bank) = Some acct_1001 \<and>
   no_fault 2 bank \<and>
   fst (handleTransfer oor_amd64 bank req_self) = Inl SelfTransfer"
proof -
  have h1: "\<not> f64_le_zero (Amount req_self)"
    by (simp add: req_self_def f64_le_zero_def)
  have h2: "FromAccountNumber req_self = ToAccountNumber req_self"
    by (simp add: req_self_def)
  have h3: "find (\<lambda>a. Number a = FromAccountNumber req_self) (rows bank) = Some acct_1001"
    by (simp add: req_self_def bank_def acct_1001_def)
  have h4: "no_fault 2 bank"
    by (simp add: no_fault_def bank_def)
  show ?thesis
    using h1 h2 h3 h4 self_transfer_rejected [OF h1 h2 h3 h4, of oor_amd64] by blast
qed

text \<open>
  With equal account numbers, an amount of 0 is reported as \<open>InvalidAmount\<close> and an unknown
  number as \<open>AccountNotFound\<close>: both checks come before the comparison of the numbers.
\<close>

theorem self_transfer_other_errors_first:
  "FromAccountNumber req_self_zero = ToAccountNumber req_self_zero \<and>
   fst (handleTransfer oor_amd64 bank req_self_zero) = Inl InvalidAmount \<and>
   FromAccountNumber req_self_unknown = ToAccountNumber req_self_unknown \<and>
   fst (handleTransfer oor_amd64 bank req_self_unknown) = Inl (AccountNotFound Source)"
  by code_simp

text \<open>
  C1. Account 1003 holds 100 minor units and the request asks for 50.00, that is 5000 minor
  units. \<open>validateTransfer\<close> compares the balance with \<open>int64(req.Amount)\<close>, which is 50,
  and accepts; the transfer commits and leaves 1003 with - 4900.
\<close>

theorem overdraw_passes_validation:
  "Balance acct_1003 < int64_of_float64 oor_amd64 (f64_mul100 (Amount req_overdraw)) \<and>
   fst (validateTransfer oor_amd64 bank req_overdraw) = None \<and>
   fst (handleTransfer oor_amd64 bank req_overdraw) =
     Inr \<lparr>status = ''success'', from_account = 1003, to_account = 1002,
          amount = Fin 50 0, transferred_at = 42\<rparr> \<and>
   map Balance (rows bank) = [100000, 5000, 100] \<and>
   map Balance (rows (snd (handleTransfer oor_amd64 bank req_overdraw))) = [100000, 10000, - 4900]"
  by code_simp

text \<open>
  C2. No balance of \<open>bank\<close> is negative; after that same transfer has committed, one is.
\<close>

theorem committed_transfer_leaves_negative_balance:
  "nonneg_balances bank \<and>
   Call Commit True \<in> set (calls_since bank (snd (handleTransfer oor_amd64 bank req_overdraw))) \<and>
   \<not> nonneg_balances (snd (handleTransfer oor_amd64 bank req_overdraw))"
  by code_simp

section \<open>Execution\<close>

text \<open>
  C8. \<open>performTransfer\<close> returns a receipt exactly when its \<open>Commit\<close> succeeded, and an
  error exactly when it did not; the receipt has status "success", the two account numbers
  and the amount of the request, and the time read from the clock.
\<close>

theorem receipt_iff_commit_succeeded:
  assumes "performTransfer oor s req = (res, s')"
  shows "((\<exists>r. res = Inr r) \<longleftrightarrow> Call Commit True \<in> set (calls_since s s')) \<and>
     ((\<exists>e. res = Inl e) \<longleftrightarrow> Call Commit True \<notin> set (calls_since s s')) \<and>
     (\<forall>r. res = Inr r \<longrightarrow>
        r = \<lparr>status = ''success'', from_account = FromAccountNumber req,
             to_account = ToAccountNumber req, amount = Amount req,
             transferred_at = now s\<rparr>)"
  using performTransfer_outcome [OF assms refl refl refl refl]
  by (elim conjE disjE exE) auto

theorem receipt_iff_commit_succeeded_witness:
  "performTransfer oor_amd64 bank req_250 =
     (Inr \<lparr>status = ''success'', from_account = 1001, to_account = 1002,
            amount = Fin 250 0, transferred_at = 42\<rparr>,
      snd (performTransfer oor_amd64 bank req_250)) \<and>
   Call Commit True \<in> set (calls_since bank (snd (performTransfer oor_amd64 bank req_250)))"
proof -
  have p: "performTransfer oor_amd64 bank req_250 =
     (Inr \<lparr>status = ''success'', from_account = 1001, to_account = 1002,
            amount = Fin 250 0, transferred_at = 42\<rparr>,
      snd (performTransfer oor_amd64 bank req_250))"
    by code_simp
  show ?thesis
    using p receipt_iff_commit_succeeded [OF p] by blast
qed

text \<open>
  C4. When \<open>performTransfer\<close> returns an error, the committed table is the one before the
  call. After a failed debit, credit or commit the transaction had been opened and the last
  call made to the store is the deferred \<open>Rollback\<close>. In particular, when the credit fails
  the debit had succeeded inside the transaction, and the source account is found unchanged.
\<close>

theorem execution_failure_rolls_back:
  assumes "performTransfer oor s req = (Inl err, s')"
  shows "rows s' = rows s \<and>
     (err \<in> {DebitFailed, CreditFailed, CommitFailed} \<longrightarrow>
        Call Begin True \<in> set (calls_since s s') \<and>
        (\<exists>ok. last (calls_since s s') = Call Rollback ok)) \<and>
     (err = CreditFailed \<longrightarrow>
        (\<exists>X d. find (\<lambda>a. Number a = FromAccountNumber req) (rows s) = Some X \<and>
           find (\<lambda>a. Number a = FromAccountNumber req) (rows s') = Some X \<and>
           Call (TxExec d (ID X)) True \<in> set (calls_since s s')))"
  using performTransfer_outcome [OF assms refl refl refl refl]
  by (elim conjE disjE exE) auto

theorem execution_failure_rolls_back_witness:
  "performTransfer oor_amd64 bank_credit_fails req_250 =
     (Inl CreditFailed, snd (performTransfer oor_amd64 bank_credit_fails req_250)) \<and>
   rows (snd (performTransfer oor_amd64 bank_credit_fails req_250)) = rows bank_credit_fails \<and>
   Call Begin True \<in>
     set (calls_since bank_credit_fails (snd (performTransfer oor_amd64 bank_credit_fails req_250))) \<and>
   calls_since bank_credit_fails (snd (performTransfer oor_amd64 bank_credit_fails req_250)) =
     [Call (QueryByNumber 1001) True, Call (QueryByNumber 1002) True, Call Begin True,
      Call (TxExec (- 25000) 1) True, Call (TxExec 25000 2) False, Call Rollback True]"
proof -
  have p: "performTransfer oor_amd64 bank_credit_fails req_250 =
     (Inl CreditFailed, snd (performTransfer oor_amd64 bank_credit_fails req_250))"
    by code_simp
  have c: "calls_since bank_credit_fails (snd (performTransfer oor_amd64 bank_credit_fails req_250)) =
     [Call (QueryByNumber 1001) True, Call (QueryByNumber 1002) True, Call Begin True,
      Call (TxExec (- 25000) 1) True, Call (TxExec 25000 2) False, Call Rollback True]"
    by code_simp
  show ?thesis
    using p c execution_failure_rolls_back [OF p] by blast
qed

section \<open>Balance updates\<close>







text \<open>
  C10. A request between two distinct existing accounts, for a positive amount below 0.01,
  from a source whose balance is not negative, on a store that does not fail during its
  eight calls: the handler returns the success receipt carrying that amount, and the
  committed table is the one before.
\<close>

theorem sub_cent_transfer_moves_nothing:
  assumes "Amount req = Fin m e" and "f64_valid (Fin m e)"
    and "0 < fin_val m e" and "fin_val m e < 1 / 100"
    and "find (\<lambda>a. Number a = FromAccountNumber req) (rows s) = Some X"
    and "find (\<lambda>a. Number a = ToAccountNumber req) (rows s) = Some Y"
    and "FromAccountNumber req \<noteq> ToAccountNumber req"
    and "0 \<le> Balance X"
    and "no_fault 8 s"
  shows "fst (handleTransfer oor s req) =
       Inr \<lparr>status = ''success'', from_account = FromAccountNumber req,
            to_account = ToAccountNumber req, amount = Fin m e, transferred_at = now s\<rparr> \<and>
     rows (snd (handleTransfer oor s req)) = rows s"
proof -
  have m: "0 < m" "m < 2 ^ 53"
  proof -
    show "0 < m"
    proof (rule ccontr)
      assume "\<not> 0 < m"
      then have "fin_val m e \<le> 0"
        by (simp add: fin_val_def mult_le_0_iff divide_le_0_iff)
      with assms(3) show False by simp
    qed
    then show "m < 2 ^ 53"
      using assms(2) by (simp add: f64_valid_def)
  qed
  from sub_cent_product [OF m assms(4)]
  obtain q e' where z: "trunc_fin m e = 0" "f64_mul100 (Fin m e) = Fin q e'" "trunc_fin q e' = 0"
    by blast
  have pos: "\<not> f64_le_zero (Amount req)"
    using m(1) assms(1) by (simp add: f64_le_zero_def)
  have amt0: "int64_of_float64 oor (Amount req) = 0"
    using z(1) assms(1) by (simp add: int64_of_float64_def int64_fits_def)
  have fits: "int64_fits (f64_mul100 (Amount req))"
    using z(2,3) assms(1) by (simp add: int64_fits_def)
  have c0: "int64_of_float64 oor (f64_mul100 (Amount req)) = 0"
    using z(2,3) assms(1) by (simp add: int64_of_float64_def int64_fits_def)
  have d0: "int64_of_float64 oor (f64_mul100 (f64_neg (Amount req))) = 0"
    using debit_is_minus_credit [OF pos fits] c0 by simp
  have nf: "no_fault (Suc (Suc (Suc (Suc (Suc (Suc (Suc (Suc 0)))))))) s"
    using assms(9) by (simp add: eval_nat_numeral)
  have "\<not> Balance X < int64_of_float64 oor (Amount req)"
    using assms(8) amt0 by simp
  from validateTransfer_no_fault [OF nf pos assms(5,6,7) this]
  obtain s1 where v: "validateTransfer oor s req = (None, s1)"
    and s1: "rows s1 = rows s" "now s1 = now s"
      "no_fault (Suc (Suc (Suc (Suc (Suc (Suc 0)))))) s1"
    by blast
  from assms(5,6) s1 have
    "find (\<lambda>a. Number a = FromAccountNumber req) (rows s1) = Some X"
    "find (\<lambda>a. Number a = ToAccountNumber req) (rows s1) = Some Y"
    by simp_all
  from performTransfer_no_fault [OF s1(3) this, of oor]
  obtain s2 where "performTransfer oor s1 req =
       (Inr \<lparr>status = ''success'', from_account = FromAccountNumber req,
              to_account = ToAccountNumber req, amount = Amount req,
              transferred_at = now s1\<rparr>, s2)"
    and "rows s2 = rows s1"
    by (auto simp: c0 d0 sql_update_balance_zero)
  with v s1 assms(1) show ?thesis
    by (simp add: handleTransfer_def)
qed

theorem sub_cent_transfer_moves_nothing_witness:
  "Amount req_half_cent = Fin 5764607523034235 (- 60) \<and>
   f64_valid (Fin 5764607523034235 (- 60)) \<and>
   0 < fin_val 5764607523034235 (- 60) \<and>
   fin_val 5764607523034235 (- 60) < 1 / 100 \<and>
   find (\<lambda>a. Number a = FromAccountNumber req_half_cent) (rows bank) = Some acct_1001 \<and>
   find (\<lambda>a. Number a = ToAccountNumber req_half_cent) (rows bank) = Some acct_1002 \<and>
   FromAccountNumber req_half_cent \<noteq> ToAccountNumber req_half_cent \<and>
   0 \<le> Balance acct_1001 \<and>
   no_fault 8 bank \<and>
   fst (handleTransfer oor_amd64 bank req_half_cent) =
     Inr \<lparr>status = ''success'', from_account = 1001, to_account = 1002,
          amount = Fin 5764607523034235 (- 60), transferred_at = 42\<rparr> \<and>
   rows (snd (handleTransfer oor_amd64 bank req_half_cent)) = rows bank"
proof -
  have h1: "Amount req_half_cent = Fin 5764607523034235 (- 60)"
    by (simp add: req_half_cent_def)
  have h2: "f64_valid (Fin 5764607523034235 (- 60))"
    by (simp add: f64_valid_def)
  have h3: "0 < fin_val 5764607523034235 (- 60)"
    by (simp add: fin_val_def)
  have h4: "fin_val 5764607523034235 (- 60) < 1 / 100"
    by (simp add: fin_val_def)
  have h5: "find (\<lambda>a. Number a = FromAccountNumber req_half_cent) (rows bank) = Some acct_1001"
    by (simp add: req_half_cent_def bank_def acct_1001_def)
  have h6: "find (\<lambda>a. Number a = ToAccountNumber req_half_cent) (rows bank) = Some acct_1002"
    by (simp add: req_half_cent_def bank_def acct_1001_def acct_1002_def)
  have h7: "FromAccountNumber req_half_cent \<noteq> ToAccountNumber req_half_cent"
    by (simp add: req_half_cent_def)
  have h8: "0 \<le> Balance acct_1001"
    by (simp add: acct_1001_def)
  have h9: "no_fault 8 bank"
    by (simp add: no_fault_def bank_def)
  have n: "now bank = 42" "FromAccountNumber req_half_cent = 1001"
    "ToAccountNumber req_half_cent = 1002"
    by (simp_all add: bank_def req_half_cent_def)
  show ?thesis
    using h1 h2 h3 h4 h5 h6 h7 h8 h9
      sub_cent_transfer_moves_nothing [OF h1 h2 h3 h4 h5 h6 h7 h8 h9, of oor_amd64]
    by (simp add: n)
qed

end
